theory Spec2Isabelle
  imports Main "HOL-Library.Word"
begin

section \<open>Strings of the embedded script\<close>

text \<open>
  The logic of \<^verbatim>\<open>nepali_unicode_typing.py\<close> is the JavaScript that
  \<^verbatim>\<open>inject_custom_keyboard\<close> places in the page. A JavaScript string is a
  sequence of 16-bit UTF-16 code units; \<^verbatim>\<open>s.length\<close> and \<^verbatim>\<open>s[i]\<close> count and
  read code units. A code unit is a \<open>16 word\<close>, a string a list of them.

  The script sits in a Python string literal that is not raw, so Python reads
  \<^verbatim>\<open>\\u093E\<close> as the six characters backslash, u, 0, 9, 3, E, and JavaScript
  reads those as the one code unit U+093E. The key written \<^verbatim>\<open>"\\\\"\<close> reaches
  JavaScript as \<^verbatim>\<open>"\\"\<close>, the string of one backslash (U+005C).
\<close>

type_synonym cu = "16 word"
type_synonym jsstring = "cu list"

definition cu :: "char \<Rightarrow> cu" where
  "cu c = of_char c"

section \<open>The table \<^verbatim>\<open>keyToNep\<close>\<close>

text \<open>
  The object literal, entry by entry and in the order of the source. Each
  key is a property name of one code unit, each value a string.
\<close>

definition keyToNep_entries :: "(cu \<times> jsstring) list" where
  "keyToNep_entries =
   [(cu CHR ''a'', [0x093E]), (cu CHR ''b'', [0x092C]), (cu CHR ''c'', [0x091B]),
    (cu CHR ''d'', [0x0926]), (cu CHR ''e'', [0x0947]),
    (cu CHR ''f'', [0x0909]), (cu CHR ''g'', [0x0917]), (cu CHR ''h'', [0x0939]),
    (cu CHR ''i'', [0x093F]), (cu CHR ''j'', [0x091C]),
    (cu CHR ''k'', [0x0915]), (cu CHR ''l'', [0x0932]), (cu CHR ''m'', [0x092E]),
    (cu CHR ''n'', [0x0928]), (cu CHR ''o'', [0x094B]),
    (cu CHR ''p'', [0x092A]), (cu CHR ''q'', [0x091F]), (cu CHR ''r'', [0x0930]),
    (cu CHR ''s'', [0x0938]), (cu CHR ''t'', [0x0924]),
    (cu CHR ''u'', [0x0941]), (cu CHR ''v'', [0x0935]), (cu CHR ''w'', [0x094C]),
    (cu CHR ''x'', [0x0921]), (cu CHR ''y'', [0x092F]),
    (cu CHR ''z'', [0x0937]),
    (cu CHR ''A'', [0x0906]), (cu CHR ''B'', [0x092D]), (cu CHR ''C'', [0x091A]),
    (cu CHR ''D'', [0x0927]), (cu CHR ''E'', [0x0948]),
    (cu CHR ''F'', [0x090A]), (cu CHR ''G'', [0x0918]), (cu CHR ''H'', [0x0905]),
    (cu CHR ''I'', [0x0940]), (cu CHR ''J'', [0x091D]),
    (cu CHR ''K'', [0x0916]), (cu CHR ''L'', [0x0933]), (cu CHR ''M'', [0x0902]),
    (cu CHR ''N'', [0x0923]), (cu CHR ''O'', [0x0913]),
    (cu CHR ''P'', [0x092B]), (cu CHR ''Q'', [0x0920]), (cu CHR ''R'', [0x0943]),
    (cu CHR ''S'', [0x0936]), (cu CHR ''T'', [0x0925]),
    (cu CHR ''U'', [0x0942]), (cu CHR ''V'', [0x0901]), (cu CHR ''W'', [0x0914]),
    (cu CHR ''X'', [0x0922]), (cu CHR ''Y'', [0x091E]),
    (cu CHR ''Z'', [0x090B]),
    (cu CHR ''0'', [0x0966]), (cu CHR ''1'', [0x0967]), (cu CHR ''2'', [0x0968]),
    (cu CHR ''3'', [0x0969]), (cu CHR ''4'', [0x096A]),
    (cu CHR ''5'', [0x096B]), (cu CHR ''6'', [0x096C]), (cu CHR ''7'', [0x096D]),
    (cu CHR ''8'', [0x096E]), (cu CHR ''9'', [0x096F]),
    (cu CHR 0x60, [0x093D]), (cu CHR ''~'', [0x093C]), (cu CHR ''_'', [0x0952]),
    (cu CHR ''+'', [0x200C]), (cu CHR ''='', [0x200D]),
    (cu CHR ''['', [0x0907]), (cu CHR ''{'', [0x0908]), (cu CHR '']'', [0x090F]),
    (cu CHR ''}'', [0x0910]),
    (cu CHR 0x5C, [0x0950]), (cu CHR ''|'', [0x0903]), (cu CHR ''<'', [0x0919]),
    (cu CHR ''.'', [0x0964]), (cu CHR ''>'', [0x0965]),
    (cu CHR ''/'', [0x094D]), (cu CHR ''?'', [cu CHR ''?''])]"

text \<open>
  \<^verbatim>\<open>keyToNep[char]\<close> with \<open>char\<close> a string of one code unit: the value of
  the entry, or \<^verbatim>\<open>undefined\<close> (here \<open>None\<close>) when the object has no such
  property. The properties an object literal inherits all have names longer
  than one code unit, so none of them answers such a lookup.
\<close>

definition keyToNep :: "cu \<Rightarrow> jsstring option" where
  "keyToNep c = map_of keyToNep_entries c"

text \<open>
  \<^verbatim>\<open>keyToNep[char] || char\<close>: the left operand when it is truthy, the
  right one otherwise. \<^verbatim>\<open>undefined\<close> and the empty string are falsy, every
  other string is truthy.
\<close>

definition lookup_or_char :: "cu \<Rightarrow> jsstring" where
  "lookup_or_char c =
     (case keyToNep c of
        None \<Rightarrow> [c]
      | Some v \<Rightarrow> (if v = [] then [c] else v))"

section \<open>\<^verbatim>\<open>romanToNepali\<close>\<close>

text \<open>
  The \<^verbatim>\<open>for\<close> loop, with its index \<open>i\<close> and the string \<open>nepaliText\<close> it
  appends to. The read \<open>romanText ! i\<close> happens under \<open>i < length romanText\<close>
  only.
\<close>

function romanToNepali_loop :: "jsstring \<Rightarrow> nat \<Rightarrow> jsstring \<Rightarrow> jsstring" where
  "romanToNepali_loop romanText i nepaliText =
     (if i < length romanText
      then romanToNepali_loop romanText (i + 1)
             (nepaliText @ lookup_or_char (romanText ! i))
      else nepaliText)"
  by pat_completeness auto
termination
  by (relation "measure (\<lambda>(romanText, i, nepaliText). length romanText - i)") auto

declare romanToNepali_loop.simps [simp del]

text \<open>
  \<^verbatim>\<open>if (!romanText) return '';\<close> comes first: the empty string is the only
  falsy string.
\<close>

definition romanToNepali :: "jsstring \<Rightarrow> jsstring" where
  "romanToNepali romanText =
     (if romanText = [] then []
      else romanToNepali_loop romanText 0 [])"

text \<open>
  The contract of the specification, in its words: for each character of
  the input, in order, the mapped value if the character is a key, else the
  character itself.
\<close>

definition transliterate_spec :: "jsstring \<Rightarrow> jsstring" where
  "transliterate_spec s =
     concat (map (\<lambda>c. case keyToNep c of Some v \<Rightarrow> v | None \<Rightarrow> [c]) s)"

section \<open>The \<^verbatim>\<open>input\<close> listener\<close>

text \<open>
  What the listener reads and writes on its textarea (\<^verbatim>\<open>this\<close>): the
  property \<^verbatim>\<open>value\<close> and the two selection offsets.
\<close>

record textarea =
  value_prop :: jsstring
  selectionStart :: nat
  selectionEnd :: nat

text \<open>
  The effects of one listener on its surroundings, in the order they happen.
  Each entry of the trace carries the value that \<^verbatim>\<open>isConverting\<close> had at
  that moment.
\<close>

datatype effect = Convert | Write | Dispatch

text \<open>
  A bound textarea: the element, the variable \<^verbatim>\<open>isConverting\<close> of the
  closure that \<^verbatim>\<open>setupNepaliTyping\<close> created for it, and the trace.
\<close>

record bound =
  area :: textarea
  isConverting :: bool
  trace :: "(effect \<times> bool) list"

definition log_effect :: "effect \<Rightarrow> bound \<Rightarrow> bound" where
  "log_effect e s = s\<lparr>trace := trace s @ [(e, isConverting s)]\<rparr>"

text \<open>
  The listener. \<^verbatim>\<open>this.selectionStart = this.selectionEnd = cursorPos\<close>
  assigns the end first, then the start. \<^verbatim>\<open>dispatchEvent\<close> is synchronous:
  it runs the \<^verbatim>\<open>input\<close> listeners of the textarea before it returns, and
  the one listener this script attaches is this function itself, so the
  dispatch is the recursive call. Listeners of other scripts are outside the
  model.
\<close>

function handler :: "bound \<Rightarrow> bound" where
  "handler s =
     (if isConverting s then s
      else
        let s1 = s\<lparr>isConverting := True\<rparr>;
            originalValue = value_prop (area s1);
            cursorPos = selectionStart (area s1);
            nepaliText = romanToNepali originalValue;
            s2 = log_effect Convert s1;
            s3 = (if nepaliText \<noteq> originalValue
                  then
                    let s4 = log_effect Write
                               (s2\<lparr>area := (area s2)\<lparr>value_prop := nepaliText\<rparr>\<rparr>);
                        s5 = s4\<lparr>area := (area s4)\<lparr>selectionEnd := cursorPos\<rparr>\<rparr>;
                        s6 = s5\<lparr>area := (area s5)\<lparr>selectionStart := cursorPos\<rparr>\<rparr>
                    in handler (log_effect Dispatch s6)
                  else s2)
        in s3\<lparr>isConverting := False\<rparr>)"
  by pat_completeness auto
termination
  by (relation "measure (\<lambda>s. if isConverting s then 0 else 1)")
     (auto simp: log_effect_def)

declare handler.simps [simp del]

section \<open>\<^verbatim>\<open>setupNepaliTyping\<close> and the mutation observer\<close>

text \<open>
  A textarea of the parent document as the set-up sees it: the attribute
  \<^verbatim>\<open>data-nepali-enabled\<close> (\<open>None\<close> when absent) and the \<^verbatim>\<open>input\<close>
  listeners this script has attached, each given by the variable
  \<^verbatim>\<open>isConverting\<close> of its closure.
\<close>

record node =
  data_nepali_enabled :: "string option"
  input_listeners :: "bool list"

definition hasAttribute :: "node \<Rightarrow> bool" where
  "hasAttribute t = (data_nepali_enabled t \<noteq> None)"

text \<open>The body of the \<^verbatim>\<open>forEach\<close> callback, for one textarea.\<close>

definition bind_textarea :: "node \<Rightarrow> node" where
  "bind_textarea t =
     (if hasAttribute t then t
      else t\<lparr>data_nepali_enabled := Some ''true'',
             input_listeners := input_listeners t @ [False]\<rparr>)"

text \<open>
  \<^verbatim>\<open>querySelectorAll('textarea')\<close> gives the textareas of the document in
  document order; \<^verbatim>\<open>forEach\<close> visits them in that order.
\<close>

definition setupNepaliTyping :: "node list \<Rightarrow> node list" where
  "setupNepaliTyping textAreas = map bind_textarea textAreas"

text \<open>
  The life of the page. The script scans once, then the observer scans again
  after the document changed. The observer watches \<^verbatim>\<open>childList\<close> and
  \<^verbatim>\<open>subtree\<close>, not attributes, so the attribute the scan sets does not wake
  it. Between two scans the host inserts new textareas, which carry neither
  the attribute nor a listener of this script, and removes textareas.
\<close>

datatype page_event = Scan | Insert nat | Remove nat

definition fresh_node :: node where
  "fresh_node = \<lparr>data_nepali_enabled = None, input_listeners = []\<rparr>"

fun page_step :: "node list \<Rightarrow> page_event \<Rightarrow> node list" where
  "page_step d Scan = setupNepaliTyping d"
| "page_step d (Insert i) = take i d @ fresh_node # drop i d"
| "page_step d (Remove i) = take i d @ drop (Suc i) d"

definition page_run :: "node list \<Rightarrow> page_event list \<Rightarrow> node list" where
  "page_run d evs = foldl page_step d evs"

section \<open>Alphabets and sample inputs\<close>

text \<open>
  The keys the specification asks the table to have: the lower-case and the
  upper-case Latin letters (in the same order, so that position \<open>i\<close> of one
  list is the other case of position \<open>i\<close> of the other), the digits, and
  the sixteen punctuation characters
  \<^verbatim>\<open>` ~ _ + = [ { ] } \ | < . > / ?\<close>.
\<close>

definition lowercase_keys :: "cu list" where
  "lowercase_keys = map cu ''abcdefghijklmnopqrstuvwxyz''"

definition uppercase_keys :: "cu list" where
  "uppercase_keys = map cu ''ABCDEFGHIJKLMNOPQRSTUVWXYZ''"

definition digit_keys :: "cu list" where
  "digit_keys = map cu ''0123456789''"

definition punctuation_keys :: "cu list" where
  "punctuation_keys =
     [cu CHR 0x60, cu CHR ''~'', cu CHR ''_'', cu CHR ''+'', cu CHR ''='',
      cu CHR ''['', cu CHR ''{'', cu CHR '']'', cu CHR ''}'', cu CHR 0x5C,
      cu CHR ''|'', cu CHR ''<'', cu CHR ''.'', cu CHR ''>'', cu CHR ''/'',
      cu CHR ''?'']"

text \<open>
  The output alphabet of the table: every code unit that occurs in a value
  of \<^verbatim>\<open>keyToNep\<close>. The Devanagari block is U+0900 to U+097F; U+200C and
  U+200D are the zero-width non-joiner and joiner.
\<close>

definition output_alphabet :: "cu list" where
  "output_alphabet = concat (map snd keyToNep_entries)"

definition devanagari :: "cu \<Rightarrow> bool" where
  "devanagari c = (0x0900 \<le> c \<and> c \<le> 0x097F)"

text \<open>
  The scenario of the specification: a textarea that holds \<^verbatim>\<open>"ks"\<close> with
  the caret behind the second character, no conversion under way, nothing
  traced yet.
\<close>

definition ks_text :: jsstring where
  "ks_text = map cu ''ks''"

definition ks_surface :: bound where
  "ks_surface =
     \<lparr>area = \<lparr>value_prop = ks_text, selectionStart = 2, selectionEnd = 2\<rparr>,
      isConverting = False, trace = []\<rparr>"

text \<open>
  A textarea is bound at most once when the number of listeners this script
  has attached to it is one if it carries the attribute and none if it does
  not. Every listener is attached by one pass through the body of
  \<open>bind_textarea\<close> and none is ever detached, so this number is the number
  of times the textarea went from unbound to bound.
\<close>

definition bound_once :: "node \<Rightarrow> bool" where
  "bound_once t = (length (input_listeners t) = (if hasAttribute t then 1 else 0))"

section \<open>The table\<close>

lemma keyToNep_distinct_keys: "distinct (map fst keyToNep_entries)"
  by (simp add: keyToNep_entries_def cu_def)

text \<open>
  No key occurs twice in the object literal, so the first entry that
  \<open>map_of\<close> finds for a key is the only one, as in JavaScript, where the
  last entry of a repeated key would win.
\<close>

lemma keyToNep_entry: "keyToNep c = Some v \<Longrightarrow> (c, v) \<in> set keyToNep_entries"
  unfolding keyToNep_def by (rule map_of_SomeD)

lemma entries_single: "\<forall>(k, v) \<in> set keyToNep_entries. length v = 1"
  by (simp add: keyToNep_entries_def)

lemma entries_ascii: "\<forall>(k, v) \<in> set keyToNep_entries. k < 0x80"
  by (simp add: keyToNep_entries_def cu_def)

lemma entries_output:
  "\<forall>(k, v) \<in> set keyToNep_entries. \<forall>c \<in> set v. 0x80 \<le> c \<or> c = cu CHR ''?''"
  by (simp add: keyToNep_entries_def cu_def)

lemma keyToNep_question: "keyToNep (cu CHR ''?'') = Some [cu CHR ''?'']"
  by (simp add: keyToNep_def keyToNep_entries_def cu_def)

lemma keyToNep_dom: "(keyToNep c \<noteq> None) = (c \<in> set (map fst keyToNep_entries))"
  unfolding keyToNep_def by (simp add: map_of_eq_None_iff)

lemma keyToNep_length: "keyToNep c = Some v \<Longrightarrow> length v = 1"
  using entries_single keyToNep_entry by fastforce

lemma keyToNep_key_ascii: "keyToNep c = Some v \<Longrightarrow> c < 0x80"
  using entries_ascii keyToNep_entry by fastforce

lemma keyToNep_high: "0x80 \<le> c \<Longrightarrow> keyToNep c = None"
proof (cases "keyToNep c")
  case None
  then show ?thesis .
next
  case (Some v)
  assume "0x80 \<le> c"
  with keyToNep_key_ascii [OF Some] show ?thesis by simp
qed

lemma lookup_or_char_eq:
  "lookup_or_char c = (case keyToNep c of Some v \<Rightarrow> v | None \<Rightarrow> [c])"
  by (auto simp: lookup_or_char_def split: option.splits dest: keyToNep_length)

lemma length_lookup_or_char: "length (lookup_or_char c) = 1"
  by (auto simp: lookup_or_char_def split: option.splits dest: keyToNep_length)

lemma lookup_or_char_fixed:
  assumes "c' \<in> set (lookup_or_char c)"
  shows "lookup_or_char c' = [c']"
proof (cases "keyToNep c")
  case None
  with assms have "c' = c" by (simp add: lookup_or_char_def)
  with None show ?thesis by (simp add: lookup_or_char_def)
next
  case (Some v)
  with assms have "c' \<in> set v" by (simp add: lookup_or_char_eq)
  with entries_output keyToNep_entry [OF Some]
  have "0x80 \<le> c' \<or> c' = cu CHR ''?''" by fastforce
  then show ?thesis
    by (auto simp: lookup_or_char_eq keyToNep_high keyToNep_question)
qed

section \<open>The loop of \<^verbatim>\<open>romanToNepali\<close>\<close>

text \<open>
  With the index at \<open>i\<close>, the loop appends the images of the characters
  from position \<open>i\<close> on.
\<close>

lemma romanToNepali_loop_eq:
  "romanToNepali_loop romanText i nepaliText =
     nepaliText @ concat (map lookup_or_char (drop i romanText))"
proof (induction romanText i nepaliText rule: romanToNepali_loop.induct)
  case (1 romanText i nepaliText)
  show ?case
  proof (cases "i < length romanText")
    case True
    then have "drop i romanText = romanText ! i # drop (i + 1) romanText"
      by (simp add: Cons_nth_drop_Suc)
    with True "1.IH" show ?thesis
      by (subst romanToNepali_loop.simps) simp
  next
    case False
    then show ?thesis
      by (subst romanToNepali_loop.simps) simp
  qed
qed

lemma romanToNepali_concat:
  "romanToNepali romanText = concat (map lookup_or_char romanText)"
  by (simp add: romanToNepali_def romanToNepali_loop_eq)

lemma length_concat_single:
  "(\<And>x. x \<in> set xs \<Longrightarrow> length (f x) = 1) \<Longrightarrow> length (concat (map f xs)) = length xs"
  by (induction xs) auto

lemma concat_fixed:
  "(\<And>x. x \<in> set xs \<Longrightarrow> f x = [x]) \<Longrightarrow> concat (map f xs) = xs"
  by (induction xs) auto

lemma romanToNepali_again: "romanToNepali (romanToNepali s) = romanToNepali s"
proof -
  have "\<And>x. x \<in> set (concat (map lookup_or_char s)) \<Longrightarrow> lookup_or_char x = [x]"
    by (auto dest: lookup_or_char_fixed)
  then show ?thesis
    unfolding romanToNepali_concat by (rule concat_fixed)
qed

lemma romanToNepali_ks: "romanToNepali ks_text = [0x0915, 0x0938]"
  by (simp add: ks_text_def romanToNepali_concat lookup_or_char_def
        keyToNep_def keyToNep_entries_def cu_def)

lemma ks_text_changes: "romanToNepali ks_text \<noteq> ks_text"
  by (simp add: romanToNepali_ks) (simp add: ks_text_def cu_def)

text \<open>
  C1. For every input string, \<^verbatim>\<open>romanToNepali\<close> returns what the contract
  describes: the characters of the input in order, each one that is a key of
  the table replaced by the value of its entry, every other one unchanged.
\<close>

theorem romanToNepali_fold: "romanToNepali s = transliterate_spec s"
proof -
  have "lookup_or_char = (\<lambda>c. case keyToNep c of Some v \<Rightarrow> v | None \<Rightarrow> [c])"
    by (rule ext) (rule lookup_or_char_eq)
  then show ?thesis
    by (simp add: romanToNepali_concat transliterate_spec_def)
qed

text \<open>
  C2. The result of \<^verbatim>\<open>romanToNepali\<close> has as many code units as its
  input, and every entry of the table has a value of exactly one code unit.
\<close>

theorem romanToNepali_length:
  "length (romanToNepali s) = length s \<and>
   (\<forall>k v. keyToNep k = Some v \<longrightarrow> length v = 1)"
  by (simp add: romanToNepali_concat length_concat_single length_lookup_or_char
        keyToNep_length)

theorem romanToNepali_length_witness:
  "keyToNep (cu CHR ''k'') = Some [0x0915] \<and> length (romanToNepali ks_text) = 2"
proof -
  have k: "keyToNep (cu CHR ''k'') = Some [0x0915]"
    by (simp add: keyToNep_def keyToNep_entries_def cu_def)
  from romanToNepali_length [of ks_text]
  have "length (romanToNepali ks_text) = length ks_text" ..
  with k show ?thesis by (simp add: ks_text_def)
qed

text \<open>
  C3, as the code has it. The seven characters of \<^verbatim>\<open>"namaste"\<close> give seven
  code units, U+0928 U+093E U+092E U+093E U+0938 U+0924 U+0947: the table
  maps \<open>s\<close> to U+0938 and \<open>t\<close> to U+0924 and puts no virama (U+094D)
  between them; only the key \<open>/\<close> produces U+094D.
\<close>

theorem romanToNepali_namaste:
  "romanToNepali (map cu ''namaste'') =
     [0x0928, 0x093E, 0x092E, 0x093E, 0x0938, 0x0924, 0x0947]"
  by (simp add: romanToNepali_concat lookup_or_char_def keyToNep_def
        keyToNep_entries_def cu_def)

text \<open>
  The string of eight code units that the specification gives for
  \<^verbatim>\<open>"namaste"\<close> is not what \<^verbatim>\<open>romanToNepali\<close> returns.
\<close>

theorem romanToNepali_namaste_counterexample:
  "romanToNepali (map cu ''namaste'') \<noteq>
     [0x0928, 0x093E, 0x092E, 0x093E, 0x0938, 0x094D, 0x0924, 0x0947]"
  by (simp add: romanToNepali_concat lookup_or_char_def keyToNep_def
        keyToNep_entries_def cu_def)

section \<open>One pass of the listener\<close>

text \<open>
  The listener without its recursion: a call made while the guard is set
  changes nothing, so the call that \<^verbatim>\<open>dispatchEvent\<close> makes from inside
  a pass returns at once, and a pass is one of two straight-line runs.
\<close>

lemma handler_guarded: "isConverting s \<Longrightarrow> handler s = s"
  by (subst handler.simps) simp

lemma handler_unchanged:
  assumes "\<not> isConverting s"
    and "romanToNepali (value_prop (area s)) = value_prop (area s)"
  shows "handler s = s\<lparr>trace := trace s @ [(Convert, True)]\<rparr>"
  using assms by (subst handler.simps) (simp add: log_effect_def Let_def)

lemma handler_changed:
  assumes "\<not> isConverting s"
    and "romanToNepali (value_prop (area s)) \<noteq> value_prop (area s)"
  shows "handler s =
           s\<lparr>area := \<lparr>value_prop = romanToNepali (value_prop (area s)),
                       selectionStart = selectionStart (area s),
                       selectionEnd = selectionStart (area s)\<rparr>,
             trace := trace s @ [(Convert, True), (Write, True), (Dispatch, True)]\<rparr>"
  using assms
  by (subst handler.simps) (simp add: log_effect_def Let_def handler_guarded)

lemma handler_ks_surface:
  "handler ks_surface =
     \<lparr>area = \<lparr>value_prop = [0x0915, 0x0938], selectionStart = 2, selectionEnd = 2\<rparr>,
      isConverting = False,
      trace = [(Convert, True), (Write, True), (Dispatch, True)]\<rparr>"
proof -
  have "romanToNepali (value_prop (area ks_surface)) \<noteq> value_prop (area ks_surface)"
    by (simp add: ks_surface_def ks_text_changes)
  moreover have "\<not> isConverting ks_surface"
    by (simp add: ks_surface_def)
  ultimately show ?thesis
    using handler_changed [of ks_surface] by (simp add: ks_surface_def romanToNepali_ks)
qed

lemma romanToNepali_ka_sa: "romanToNepali [0x0915, 0x0938] = [0x0915, 0x0938]"
  by (simp add: romanToNepali_concat lookup_or_char_eq keyToNep_high)

text \<open>
  C4. A call of the listener with \<^verbatim>\<open>isConverting\<close> set returns the state
  it was given: nothing is converted, written or dispatched. A call with the
  guard clear ends with the guard clear, whether it wrote or not, and adds to
  the trace either one conversion, or one conversion, one write and one
  dispatch, each made while the guard was set. The call that the dispatch
  makes adds nothing, so there is no second conversion inside a pass, and the
  recursion of \<open>handler\<close> ends (its termination is proved with its
  definition).
\<close>

theorem handler_reentrancy:
  "(isConverting s \<longrightarrow> handler s = s) \<and>
   (\<not> isConverting s \<longrightarrow>
      \<not> isConverting (handler s) \<and>
      (trace (handler s) = trace s @ [(Convert, True)] \<or>
       trace (handler s) =
         trace s @ [(Convert, True), (Write, True), (Dispatch, True)]))"
proof (cases "isConverting s")
  case True
  then show ?thesis by (simp add: handler_guarded)
next
  case False
  then show ?thesis
    by (cases "romanToNepali (value_prop (area s)) = value_prop (area s)")
       (simp_all add: handler_unchanged handler_changed)
qed

text \<open>
  Both cases at concrete states: the textarea of the scenario with the guard
  set, and with the guard clear.
\<close>

theorem handler_reentrancy_witness:
  "handler (ks_surface\<lparr>isConverting := True\<rparr>) = ks_surface\<lparr>isConverting := True\<rparr> \<and>
   isConverting (handler ks_surface) = False \<and>
   length (trace (handler ks_surface)) \<in> {1, 3}"
proof -
  have g: "isConverting (ks_surface\<lparr>isConverting := True\<rparr>)" by simp
  have n: "\<not> isConverting ks_surface" by (simp add: ks_surface_def)
  have t: "trace ks_surface = []" by (simp add: ks_surface_def)
  from handler_reentrancy [of "ks_surface\<lparr>isConverting := True\<rparr>"] g
  have 1: "handler (ks_surface\<lparr>isConverting := True\<rparr>) = ks_surface\<lparr>isConverting := True\<rparr>"
    by blast
  from handler_reentrancy [of ks_surface] n
  have 2: "\<not> isConverting (handler ks_surface)"
    and 3: "trace (handler ks_surface) = trace ks_surface @ [(Convert, True)] \<or>
       trace (handler ks_surface) =
         trace ks_surface @ [(Convert, True), (Write, True), (Dispatch, True)]"
    by blast+
  from 3 t have "length (trace (handler ks_surface)) \<in> {1, 3}" by auto
  with 1 2 show ?thesis by simp
qed

text \<open>
  C5. On the textarea that holds \<^verbatim>\<open>"ks"\<close> with the caret at offset 2,
  one pass writes \<open>romanToNepali ks_text\<close>, puts both selection offsets at 2
  and dispatches one event. A second pass on the result converts, finds the
  value unchanged, and neither writes nor dispatches. In general, when
  \<^verbatim>\<open>romanToNepali\<close> returns the current value, the textarea and the guard
  are as before the call and nothing but the conversion is traced.
\<close>

theorem handler_ks_scenario:
  "handler ks_surface =
     \<lparr>area = \<lparr>value_prop = romanToNepali ks_text, selectionStart = 2, selectionEnd = 2\<rparr>,
      isConverting = False,
      trace = [(Convert, True), (Write, True), (Dispatch, True)]\<rparr> \<and>
   handler (handler ks_surface) =
     (handler ks_surface)\<lparr>trace := trace (handler ks_surface) @ [(Convert, True)]\<rparr> \<and>
   (romanToNepali (value_prop (area s)) = value_prop (area s) \<longrightarrow>
      handler s = (if isConverting s then s
                   else s\<lparr>trace := trace s @ [(Convert, True)]\<rparr>))"
proof (intro conjI impI)
  show "handler ks_surface =
     \<lparr>area = \<lparr>value_prop = romanToNepali ks_text, selectionStart = 2, selectionEnd = 2\<rparr>,
      isConverting = False,
      trace = [(Convert, True), (Write, True), (Dispatch, True)]\<rparr>"
    by (simp add: handler_ks_surface romanToNepali_ks)
next
  have "romanToNepali (value_prop (area (handler ks_surface))) =
          value_prop (area (handler ks_surface))"
    by (simp add: handler_ks_surface romanToNepali_ka_sa)
  moreover have "\<not> isConverting (handler ks_surface)"
    by (simp add: handler_ks_surface)
  ultimately show "handler (handler ks_surface) =
     (handler ks_surface)\<lparr>trace := trace (handler ks_surface) @ [(Convert, True)]\<rparr>"
    by (rule handler_unchanged [rotated])
next
  assume "romanToNepali (value_prop (area s)) = value_prop (area s)"
  then show "handler s = (if isConverting s then s
                   else s\<lparr>trace := trace s @ [(Convert, True)]\<rparr>)"
    by (simp add: handler_guarded handler_unchanged)
qed

text \<open>
  The general part at the state that the first pass leaves, with an empty
  trace.
\<close>

theorem handler_ks_scenario_witness:
  "romanToNepali [0x0915, 0x0938] = [0x0915, 0x0938] \<and>
   trace (handler \<lparr>area = \<lparr>value_prop = [0x0915, 0x0938], selectionStart = 2, selectionEnd = 2\<rparr>,
      isConverting = False, trace = []\<rparr>) = [(Convert, True)]"
proof -
  let ?s = "\<lparr>area = \<lparr>value_prop = [0x0915, 0x0938], selectionStart = 2, selectionEnd = 2\<rparr>,
      isConverting = False, trace = []\<rparr>"
  have h: "romanToNepali (value_prop (area ?s)) = value_prop (area ?s)"
    by (simp add: romanToNepali_ka_sa)
  from handler_ks_scenario [of ?s] h
  have "handler ?s = (if isConverting ?s then ?s
                   else ?s\<lparr>trace := trace ?s @ [(Convert, True)]\<rparr>)"
    by blast
  then show ?thesis by (simp add: romanToNepali_ka_sa)
qed

section \<open>Strings that the conversion leaves alone\<close>

lemma romanToNepali_no_keys:
  assumes "\<forall>c \<in> set s. keyToNep c = None"
  shows "romanToNepali s = s"
proof -
  from assms have "\<And>x. x \<in> set s \<Longrightarrow> lookup_or_char x = [x]"
    by (simp add: lookup_or_char_def)
  then show ?thesis
    unfolding romanToNepali_concat by (rule concat_fixed)
qed

lemma output_alphabet_high: "\<forall>c \<in> set output_alphabet. 0x80 \<le> c \<or> c = cu CHR ''?''"
  using entries_output by (fastforce simp: output_alphabet_def)

lemma devanagari_high: "devanagari c \<Longrightarrow> 0x80 \<le> c"
proof -
  assume "devanagari c"
  then have "0x0900 \<le> c" by (simp add: devanagari_def)
  moreover have "(0x80 :: cu) \<le> 0x0900" by simp
  ultimately show ?thesis by (rule order_trans [rotated])
qed

text \<open>
  C6. A string none of whose characters is a key of the table comes back
  unchanged. The characters of the output alphabet are of this kind, all but
  \<open>?\<close>: no code unit of a table value other than \<open>?\<close> is a key, and
  neither is any code unit of the Devanagari block, nor the zero-width
  non-joiner or joiner.
\<close>

theorem romanToNepali_output_fixed:
  "((\<forall>c \<in> set s. keyToNep c = None) \<longrightarrow> romanToNepali s = s) \<and>
   (\<forall>c \<in> set output_alphabet. c \<noteq> cu CHR ''?'' \<longrightarrow> keyToNep c = None) \<and>
   (\<forall>c. devanagari c \<or> c = 0x200C \<or> c = 0x200D \<longrightarrow> keyToNep c = None)"
proof (intro conjI allI impI ballI)
  assume "\<forall>c \<in> set s. keyToNep c = None"
  then show "romanToNepali s = s" by (rule romanToNepali_no_keys)
next
  fix c
  assume "c \<in> set output_alphabet" and "c \<noteq> cu CHR ''?''"
  with output_alphabet_high have "0x80 \<le> c" by blast
  then show "keyToNep c = None" by (rule keyToNep_high)
next
  fix c :: cu
  assume "devanagari c \<or> c = 0x200C \<or> c = 0x200D"
  then have "0x80 \<le> c" by (auto dest: devanagari_high)
  then show "keyToNep c = None" by (rule keyToNep_high)
qed

text \<open>
  At the string of U+0915 (a value of the table, in the Devanagari block) and
  U+200D.
\<close>

theorem romanToNepali_output_fixed_witness:
  "devanagari 0x0915 \<and> 0x0915 \<in> set output_alphabet \<and> keyToNep 0x0915 = None \<and>
   keyToNep 0x200D = None \<and>
   romanToNepali [0x0915, 0x200D] = [0x0915, 0x200D]"
proof -
  note t = romanToNepali_output_fixed [of "[0x0915, 0x200D]"]
  have d: "devanagari 0x0915" by (simp add: devanagari_def)
  have o: "0x0915 \<in> set output_alphabet"
    by (simp add: output_alphabet_def keyToNep_entries_def)
  from t d have k: "keyToNep 0x0915 = None" by blast
  from t have j: "keyToNep 0x200D = None" by blast
  from k j have "\<forall>c \<in> set [0x0915, 0x200D :: cu]. keyToNep c = None" by simp
  with t have "romanToNepali [0x0915, 0x200D] = [0x0915, 0x200D]" by blast
  with d o k j show ?thesis by simp
qed

text \<open>
  C7. \<^verbatim>\<open>romanToNepali\<close> is a total function: its loop ends on every
  input (the termination proof stands with \<open>romanToNepali_loop\<close>), it has no
  \<^verbatim>\<open>throw\<close>, and its one indexed read is in range. A character that is not
  a key is returned as it is, alone or at any position of a longer string.
\<close>

theorem romanToNepali_passthrough:
  "(keyToNep c = None \<longrightarrow> romanToNepali [c] = [c]) \<and>
   (\<forall>i < length s. keyToNep (s ! i) = None \<longrightarrow> romanToNepali s ! i = s ! i)"
proof (intro conjI allI impI)
  assume "keyToNep c = None"
  then show "romanToNepali [c] = [c]"
    by (simp add: romanToNepali_concat lookup_or_char_def)
next
  fix i
  assume i: "i < length s" and n: "keyToNep (s ! i) = None"
  have "romanToNepali s = map (\<lambda>c. hd (lookup_or_char c)) s"
    unfolding romanToNepali_concat
  proof (induction s)
    case Nil
    show ?case by simp
  next
    case (Cons a s)
    from length_lookup_or_char [of a] obtain x where "lookup_or_char a = [x]"
      by (cases "lookup_or_char a") auto
    with Cons show ?case by simp
  qed
  with i n show "romanToNepali s ! i = s ! i"
    by (simp add: lookup_or_char_def)
qed

text \<open>At \<open>!\<close>, which the table does not have, alone and behind a \<open>k\<close>.\<close>

theorem romanToNepali_passthrough_witness:
  "keyToNep (cu CHR ''!'') = None \<and> romanToNepali [cu CHR ''!''] = [cu CHR ''!''] \<and>
   romanToNepali (map cu ''k!'') ! 1 = cu CHR ''!''"
proof -
  have n: "keyToNep (cu CHR ''!'') = None"
    by (simp add: keyToNep_def keyToNep_entries_def cu_def)
  from romanToNepali_passthrough [of "cu CHR ''!''" "map cu ''k!''"] n
  have "romanToNepali [cu CHR ''!''] = [cu CHR ''!'']"
    and "romanToNepali (map cu ''k!'') ! 1 = map cu ''k!'' ! 1"
    by auto
  with n show ?thesis by simp
qed

section \<open>Binding textareas\<close>

text \<open>
  The set-up marks what it binds and binds only what is not marked.
\<close>

lemma bind_textarea_marks: "hasAttribute (bind_textarea t)"
  by (simp add: bind_textarea_def hasAttribute_def)

lemma bind_textarea_bound: "hasAttribute t \<Longrightarrow> bind_textarea t = t"
  by (simp add: bind_textarea_def)

lemma bind_textarea_once: "bound_once t \<Longrightarrow> bound_once (bind_textarea t)"
  by (auto simp: bound_once_def bind_textarea_def hasAttribute_def)

lemma bind_textarea_listeners:
  "bound_once t \<Longrightarrow> length (input_listeners (bind_textarea t)) = 1"
  by (auto simp: bound_once_def bind_textarea_def hasAttribute_def)

lemma fresh_node_once: "bound_once fresh_node"
  by (simp add: bound_once_def fresh_node_def hasAttribute_def)

lemma page_step_once:
  assumes "\<forall>t \<in> set d. bound_once t"
  shows "\<forall>t \<in> set (page_step d ev). bound_once t"
proof (cases ev)
  case Scan
  with assms show ?thesis
    by (simp add: setupNepaliTyping_def bind_textarea_once)
next
  case (Insert i)
  with assms show ?thesis
    by (auto simp: fresh_node_once dest: in_set_takeD in_set_dropD)
next
  case (Remove i)
  with assms show ?thesis
    by (auto dest: in_set_takeD in_set_dropD)
qed

lemma page_run_once:
  "\<forall>t \<in> set d. bound_once t \<Longrightarrow> \<forall>t \<in> set (page_run d evs). bound_once t"
  unfolding page_run_def
proof (induction evs arbitrary: d)
  case Nil
  then show ?case by simp
next
  case (Cons ev evs)
  from Cons.prems have "\<forall>t \<in> set (page_step d ev). bound_once t"
    by (rule page_step_once)
  then show ?case using Cons.IH by simp
qed

lemma setupNepaliTyping_twice:
  "setupNepaliTyping (setupNepaliTyping d) = setupNepaliTyping d"
  by (simp add: setupNepaliTyping_def bind_textarea_bound bind_textarea_marks)

text \<open>
  C8. Start from a document in which every textarea is bound at most once
  (for instance one in which nothing is bound yet), and let scans, insertions
  of new textareas and removals follow in any order. Then every textarea
  present is still bound at most once: it has one listener if it carries the
  marker and none otherwise. One more scan leaves every textarea marked with
  exactly one listener; it returns every marked textarea as it is and gives
  every other one the marker and its one listener; and scanning again changes
  nothing.
\<close>

theorem setupNepaliTyping_binds_once:
  assumes "\<forall>t \<in> set d. bound_once t"
  shows "(\<forall>t \<in> set (page_run d evs). bound_once t) \<and>
         (\<forall>t \<in> set (setupNepaliTyping (page_run d evs)).
            hasAttribute t \<and> length (input_listeners t) = 1) \<and>
         length (setupNepaliTyping (page_run d evs)) = length (page_run d evs) \<and>
         (\<forall>i < length (page_run d evs).
            setupNepaliTyping (page_run d evs) ! i =
              (if hasAttribute (page_run d evs ! i) then page_run d evs ! i
               else (page_run d evs ! i)\<lparr>data_nepali_enabled := Some ''true'',
                      input_listeners := [False]\<rparr>)) \<and>
         setupNepaliTyping (setupNepaliTyping (page_run d evs)) =
           setupNepaliTyping (page_run d evs)"
proof -
  let ?d = "page_run d evs"
  from assms have inv: "\<forall>t \<in> set ?d. bound_once t" by (rule page_run_once)
  have "\<forall>t \<in> set (setupNepaliTyping ?d). hasAttribute t \<and> length (input_listeners t) = 1"
    using inv by (auto simp: setupNepaliTyping_def bind_textarea_marks bind_textarea_listeners)
  moreover have "\<forall>i < length ?d. setupNepaliTyping ?d ! i =
              (if hasAttribute (?d ! i) then ?d ! i
               else (?d ! i)\<lparr>data_nepali_enabled := Some ''true'',
                      input_listeners := [False]\<rparr>)"
  proof (intro allI impI)
    fix i assume i: "i < length ?d"
    with inv have "bound_once (?d ! i)" by simp
    with i show "setupNepaliTyping ?d ! i =
              (if hasAttribute (?d ! i) then ?d ! i
               else (?d ! i)\<lparr>data_nepali_enabled := Some ''true'',
                      input_listeners := [False]\<rparr>)"
      by (auto simp: setupNepaliTyping_def bind_textarea_def bound_once_def)
  qed
  ultimately show ?thesis
    using inv by (simp add: setupNepaliTyping_twice) (simp add: setupNepaliTyping_def)
qed

text \<open>
  On a page that starts with one new textarea, is scanned, receives a second
  textarea, and is scanned twice more.
\<close>

theorem setupNepaliTyping_binds_once_witness:
  "bound_once fresh_node \<and>
   map (\<lambda>t. length (input_listeners t))
     (page_run [fresh_node] [Scan, Insert 0, Scan, Scan]) = [1, 1] \<and>
   map (\<lambda>t. length (input_listeners t))
     (page_run [fresh_node] [Scan, Insert 0]) = [0, 1] \<and>
   setupNepaliTyping (page_run [fresh_node] [Scan, Insert 0]) =
     page_run [fresh_node] [Scan, Insert 0, Scan, Scan]"
proof -
  have f: "\<forall>t \<in> set [fresh_node]. bound_once t" by (simp add: fresh_node_once)
  note t = setupNepaliTyping_binds_once [OF f, of "[Scan, Insert 0]"]
  have r: "page_run [fresh_node] [Scan, Insert 0] =
      [fresh_node, \<lparr>data_nepali_enabled = Some ''true'', input_listeners = [False]\<rparr>]"
    by (simp add: page_run_def setupNepaliTyping_def bind_textarea_def hasAttribute_def
          fresh_node_def)
  have s: "page_run [fresh_node] [Scan, Insert 0, Scan, Scan] =
      setupNepaliTyping (setupNepaliTyping (page_run [fresh_node] [Scan, Insert 0]))"
    by (simp add: page_run_def)
  from t have "setupNepaliTyping (setupNepaliTyping (page_run [fresh_node] [Scan, Insert 0])) =
      setupNepaliTyping (page_run [fresh_node] [Scan, Insert 0])" by blast
  with s have e: "setupNepaliTyping (page_run [fresh_node] [Scan, Insert 0]) =
     page_run [fresh_node] [Scan, Insert 0, Scan, Scan]" by simp
  from t have "\<forall>t \<in> set (setupNepaliTyping (page_run [fresh_node] [Scan, Insert 0])).
            hasAttribute t \<and> length (input_listeners t) = 1" by blast
  with e have "\<forall>t \<in> set (page_run [fresh_node] [Scan, Insert 0, Scan, Scan]).
       length (input_listeners t) = 1" by simp
  moreover have "length (page_run [fresh_node] [Scan, Insert 0, Scan, Scan]) = 2"
    by (simp add: page_run_def setupNepaliTyping_def)
  ultimately have "map (\<lambda>t. length (input_listeners t))
     (page_run [fresh_node] [Scan, Insert 0, Scan, Scan]) = [1, 1]"
    by (cases "page_run [fresh_node] [Scan, Insert 0, Scan, Scan]") (auto simp: length_Suc_conv)
  moreover have "map (\<lambda>t. length (input_listeners t))
     (page_run [fresh_node] [Scan, Insert 0]) = [0, 1]"
    unfolding r by (simp add: fresh_node_def)
  ultimately show ?thesis using e fresh_node_once by simp
qed

section \<open>Coverage of the table\<close>

text \<open>
  C9. The table has an entry for each of the 26 lower-case letters, the 26
  upper-case letters, the 10 digits and the 16 punctuation characters (78
  different keys); for each letter the two cases have different values; and
  \<open>?\<close> has an entry of its own, whose value is \<open>?\<close>.
\<close>

theorem keyToNep_covers_keyboard:
  "length lowercase_keys = 26 \<and> length uppercase_keys = 26 \<and>
   length digit_keys = 10 \<and> length punctuation_keys = 16 \<and>
   distinct (lowercase_keys @ uppercase_keys @ digit_keys @ punctuation_keys) \<and>
   (\<forall>c \<in> set (lowercase_keys @ uppercase_keys @ digit_keys @ punctuation_keys).
      keyToNep c \<noteq> None) \<and>
   (\<forall>(l, u) \<in> set (zip lowercase_keys uppercase_keys). keyToNep l \<noteq> keyToNep u) \<and>
   keyToNep (cu CHR ''?'') = Some [cu CHR ''?'']"
proof (intro conjI)
  show "distinct (lowercase_keys @ uppercase_keys @ digit_keys @ punctuation_keys)"
    by (simp add: lowercase_keys_def uppercase_keys_def digit_keys_def
          punctuation_keys_def cu_def)
  show "\<forall>c \<in> set (lowercase_keys @ uppercase_keys @ digit_keys @ punctuation_keys).
      keyToNep c \<noteq> None"
    unfolding keyToNep_dom
    by (simp add: lowercase_keys_def uppercase_keys_def digit_keys_def
          punctuation_keys_def keyToNep_entries_def cu_def)
  show "\<forall>(l, u) \<in> set (zip lowercase_keys uppercase_keys). keyToNep l \<noteq> keyToNep u"
    by (simp add: lowercase_keys_def uppercase_keys_def keyToNep_def
          keyToNep_entries_def cu_def)
  show "keyToNep (cu CHR ''?'') = Some [cu CHR ''?'']"
    by (rule keyToNep_question)
qed (simp_all add: lowercase_keys_def uppercase_keys_def digit_keys_def
       punctuation_keys_def)

text \<open>At the letter \<open>k\<close>.\<close>

theorem keyToNep_covers_keyboard_witness:
  "cu CHR ''k'' \<in> set lowercase_keys \<and> keyToNep (cu CHR ''k'') \<noteq> None \<and>
   (cu CHR ''k'', cu CHR ''K'') \<in> set (zip lowercase_keys uppercase_keys) \<and>
   keyToNep (cu CHR ''k'') \<noteq> keyToNep (cu CHR ''K'')"
proof -
  have m: "cu CHR ''k'' \<in> set lowercase_keys"
    by (simp add: lowercase_keys_def)
  have z: "(cu CHR ''k'', cu CHR ''K'') \<in> set (zip lowercase_keys uppercase_keys)"
    by (simp add: lowercase_keys_def uppercase_keys_def)
  from keyToNep_covers_keyboard m have "keyToNep (cu CHR ''k'') \<noteq> None"
    by simp
  moreover from keyToNep_covers_keyboard z
  have "keyToNep (cu CHR ''k'') \<noteq> keyToNep (cu CHR ''K'')"
    by blast
  ultimately show ?thesis using m z by simp
qed

section \<open>Idempotence\<close>

text \<open>
  C10. Converting a converted string changes nothing. The reason is in the
  table: a code unit of a value that is itself a key can only be \<open>?\<close>,
  which the table maps to itself. So the value that a pass of the listener
  leaves in the textarea is a fixed point of \<^verbatim>\<open>romanToNepali\<close>.
\<close>

theorem romanToNepali_idempotent:
  "romanToNepali (romanToNepali s) = romanToNepali s \<and>
   (\<forall>k v c. keyToNep k = Some v \<and> c \<in> set v \<and> keyToNep c \<noteq> None \<longrightarrow> c = cu CHR ''?'') \<and>
   keyToNep (cu CHR ''?'') = Some [cu CHR ''?''] \<and>
   (\<not> isConverting b \<longrightarrow>
      romanToNepali (value_prop (area (handler b))) = value_prop (area (handler b)))"
proof (intro conjI allI impI)
  show "romanToNepali (romanToNepali s) = romanToNepali s"
    by (rule romanToNepali_again)
next
  fix k v c
  assume a: "keyToNep k = Some v \<and> c \<in> set v \<and> keyToNep c \<noteq> None"
  with entries_output keyToNep_entry [of k v]
  have "0x80 \<le> c \<or> c = cu CHR ''?''" by fastforce
  with a show "c = cu CHR ''?''" by (auto simp: keyToNep_high)
next
  show "keyToNep (cu CHR ''?'') = Some [cu CHR ''?'']"
    by (rule keyToNep_question)
next
  assume n: "\<not> isConverting b"
  show "romanToNepali (value_prop (area (handler b))) = value_prop (area (handler b))"
  proof (cases "romanToNepali (value_prop (area b)) = value_prop (area b)")
    case True
    with n show ?thesis by (simp add: handler_unchanged)
  next
    case False
    with n show ?thesis by (simp add: handler_changed romanToNepali_again)
  qed
qed

text \<open>At the text \<^verbatim>\<open>"ks"\<close>, the key \<open>k\<close> and the textarea of the scenario.\<close>

theorem romanToNepali_idempotent_witness:
  "keyToNep (cu CHR ''k'') = Some [0x0915] \<and> keyToNep 0x0915 = None \<and>
   isConverting ks_surface = False \<and>
   romanToNepali (value_prop (area (handler ks_surface))) = [0x0915, 0x0938] \<and>
   romanToNepali (romanToNepali ks_text) = [0x0915, 0x0938]"
proof -
  have k: "keyToNep (cu CHR ''k'') = Some [0x0915]"
    by (simp add: keyToNep_def keyToNep_entries_def cu_def)
  have q: "(0x0915 :: cu) \<noteq> cu CHR ''?''" by (simp add: cu_def)
  have n: "\<not> isConverting ks_surface" by (simp add: ks_surface_def)
  note t = romanToNepali_idempotent [of ks_text ks_surface]
  from t have "romanToNepali (romanToNepali ks_text) = romanToNepali ks_text" by blast
  moreover from t k q have "keyToNep 0x0915 = None" by fastforce
  moreover from t n have "romanToNepali (value_prop (area (handler ks_surface))) =
      value_prop (area (handler ks_surface))" by blast
  ultimately show ?thesis
    using k n by (simp add: romanToNepali_ks handler_ks_surface)
qed

end
